theory Spec2Isabelle
  imports
    Complex_Main
    "HOL-Library.Char_ord"
    "HOL-Library.List_Lexorder"
    "HOL-Library.Product_Lexorder"
begin

section \<open>Text primitives of the Python runtime\<close>

text \<open>
  The analyzer of \<^verbatim>\<open>src/style_analyzer.py\<close> works on Python \<^verbatim>\<open>str\<close> values. A text is
  modelled as a \<^typ>\<open>string\<close> whose characters are read as the code points U+0000 to
  U+00FF; the character classes below are the ones Python assigns to these code points.
  Code points above U+00FF are outside the model.
\<close>

definition code_point :: "char \<Rightarrow> nat" where
  "code_point c = of_char c"

text \<open>\<^verbatim>\<open>str.isspace\<close>, which is also the class \<^verbatim>\<open>\s\<close> of \<^verbatim>\<open>re\<close> and what
  \<^verbatim>\<open>str.split()\<close> and \<^verbatim>\<open>str.strip()\<close> treat as white space.\<close>

definition is_space :: "char \<Rightarrow> bool" where
  "is_space c =
     (let n = code_point c
      in (9 \<le> n \<and> n \<le> 13) \<or> (28 \<le> n \<and> n \<le> 32) \<or> n = 133 \<or> n = 160)"

text \<open>The class \<^verbatim>\<open>\w\<close> of \<^verbatim>\<open>re\<close> on \<^verbatim>\<open>str\<close> patterns: \<^verbatim>\<open>str.isalnum\<close> or the underscore.\<close>

definition is_word :: "char \<Rightarrow> bool" where
  "is_word c =
     (let n = code_point c
      in (48 \<le> n \<and> n \<le> 57) \<or> (65 \<le> n \<and> n \<le> 90) \<or> n = 95 \<or> (97 \<le> n \<and> n \<le> 122)
         \<or> n = 170 \<or> n = 178 \<or> n = 179 \<or> n = 181 \<or> n = 185 \<or> n = 186
         \<or> (188 \<le> n \<and> n \<le> 190) \<or> (192 \<le> n \<and> n \<le> 214) \<or> (216 \<le> n \<and> n \<le> 246)
         \<or> (248 \<le> n \<and> n \<le> 255))"

text \<open>\<^verbatim>\<open>str.lower\<close>, one character at a time (below U+0100 it never changes the length).\<close>

definition lower_char :: "char \<Rightarrow> char" where
  "lower_char c =
     (let n = code_point c
      in if (65 \<le> n \<and> n \<le> 90) \<or> (192 \<le> n \<and> n \<le> 214) \<or> (216 \<le> n \<and> n \<le> 222)
         then char_of (n + 32) else c)"

definition lower :: "string \<Rightarrow> string" where
  "lower s = map lower_char s"

text \<open>\<^verbatim>\<open>str.split()\<close> with no separator: the maximal runs of characters that are not
  white space, in order. The first argument is the run being read.\<close>

fun split_run :: "string \<Rightarrow> string \<Rightarrow> string list" where
  "split_run cur [] = (if cur = [] then [] else [cur])"
| "split_run cur (c # cs) =
     (if is_space c then (if cur = [] then split_run [] cs else cur # split_run [] cs)
      else split_run (cur @ [c]) cs)"

definition split :: "string \<Rightarrow> string list" where
  "split s = split_run [] s"

text \<open>\<^verbatim>\<open>str.strip()\<close> and \<^verbatim>\<open>sep.join(parts)\<close>.\<close>

definition strip :: "string \<Rightarrow> string" where
  "strip s = rev (dropWhile is_space (rev (dropWhile is_space s)))"

fun join :: "string \<Rightarrow> string list \<Rightarrow> string" where
  "join sep [] = []"
| "join sep [x] = x"
| "join sep (x # y # ys) = x @ sep @ join sep (y # ys)"

text \<open>\<^verbatim>\<open>sub in s\<close> on strings: \<^verbatim>\<open>sub\<close> occurs in \<^verbatim>\<open>s\<close> as a contiguous substring.\<close>

definition starts_with :: "string \<Rightarrow> string \<Rightarrow> bool" where
  "starts_with s pre = (take (length pre) s = pre)"

fun contains :: "string \<Rightarrow> string \<Rightarrow> bool" where
  "contains [] sub = (sub = [])"
| "contains (c # cs) sub = (starts_with (c # cs) sub \<or> contains cs sub)"

text \<open>\<^verbatim>\<open>str(n)\<close> for a non-negative integer: its decimal digits.\<close>

definition digit_char :: "nat \<Rightarrow> char" where
  "digit_char d = char_of (48 + d)"

fun str_nat :: "nat \<Rightarrow> string" where
  "str_nat n = (if n < 10 then [digit_char n] else str_nat (n div 10) @ [digit_char (n mod 10)])"

declare str_nat.simps [simp del]

section \<open>The fragment of Python's regular expressions the analyzer uses\<close>

text \<open>
  Every pattern of the source is built from literal text, a repeated character class
  (greedy or lazy, with a minimal count), the word boundary \<^verbatim>\<open>\b\<close>, alternation and
  concatenation. A configuration is the character just before the current position (if
  any) and the rest of the input. \<open>run\<close> lists the configurations in which a match of
  the pattern can end, in the order in which the backtracking matcher of \<^verbatim>\<open>re\<close> tries
  them, so the match \<^verbatim>\<open>re\<close> reports at a position is the head of the list.
\<close>

datatype regex =
    Lit string
  | Rep "char \<Rightarrow> bool" nat bool
  | Boundary
  | Alt regex regex
  | Seq regex regex

type_synonym config = "char option \<times> string"

fun eat :: "nat \<Rightarrow> config \<Rightarrow> config" where
  "eat 0 cfg = cfg"
| "eat (Suc n) (p, []) = (p, [])"
| "eat (Suc n) (p, c # cs) = eat n (Some c, cs)"

text \<open>A character of the input against a character of a literal: equal, or under
  \<^verbatim>\<open>re.IGNORECASE\<close> equal after lowering. \<open>literal ic lit s\<close> holds when the input \<open>s\<close>
  starts with the literal \<open>lit\<close>.\<close>

definition same_char :: "bool \<Rightarrow> char \<Rightarrow> char \<Rightarrow> bool" where
  "same_char ignorecase a b = (if ignorecase then lower_char a = lower_char b else a = b)"

fun literal :: "bool \<Rightarrow> string \<Rightarrow> string \<Rightarrow> bool" where
  "literal ic [] s = True"
| "literal ic (x # xs) [] = False"
| "literal ic (x # xs) (c # cs) = (if same_char ic x c then literal ic xs cs else False)"

definition word_before :: "char option \<Rightarrow> bool" where
  "word_before p = (case p of None \<Rightarrow> False | Some c \<Rightarrow> is_word c)"

definition word_after :: "string \<Rightarrow> bool" where
  "word_after s = (case s of [] \<Rightarrow> False | c # _ \<Rightarrow> is_word c)"

definition counts :: "nat \<Rightarrow> nat \<Rightarrow> bool \<Rightarrow> nat list" where
  "counts lo hi greedy = (if greedy then rev [lo ..< Suc hi] else [lo ..< Suc hi])"

fun run :: "bool \<Rightarrow> regex \<Rightarrow> config \<Rightarrow> config list" where
  "run ic (Lit lit) (p, s) =
     (if literal ic lit s then [eat (length lit) (p, s)] else [])"
| "run ic (Rep cls lo greedy) (p, s) =
     map (\<lambda>n. eat n (p, s)) (counts lo (length (takeWhile cls s)) greedy)"
| "run ic Boundary (p, s) = (if word_before p \<noteq> word_after s then [(p, s)] else [])"
| "run ic (Alt a b) cfg = run ic a cfg @ run ic b cfg"
| "run ic (Seq a b) cfg = concat (map (run ic b) (run ic a cfg))"

text \<open>The length of the match at the current position, if the pattern matches there.\<close>

definition match_here :: "bool \<Rightarrow> regex \<Rightarrow> config \<Rightarrow> nat option" where
  "match_here ic r cfg =
     (case run ic r cfg of [] \<Rightarrow> None | (p', s') # _ \<Rightarrow> Some (length (snd cfg) - length s'))"

text \<open>
  \<^verbatim>\<open>re.finditer\<close>: the leftmost matches that do not overlap, each with its start offset
  and its text. \<open>scan\<close> walks the input once; \<open>skip\<close> counts the characters still covered
  by the last match and \<open>i\<close> is the offset of the current position. The patterns of the
  source never match the empty string.
\<close>

fun scan :: "bool \<Rightarrow> regex \<Rightarrow> nat \<Rightarrow> nat \<Rightarrow> char option \<Rightarrow> string \<Rightarrow> (nat \<times> string) list" where
  "scan ic r skip i p [] = []"
| "scan ic r skip i p (c # cs) =
     (if 0 < skip then scan ic r (skip - 1) (Suc i) (Some c) cs
      else (case match_here ic r (p, c # cs) of
              None \<Rightarrow> scan ic r 0 (Suc i) (Some c) cs
            | Some n \<Rightarrow> (i, take n (c # cs)) # scan ic r (n - 1) (Suc i) (Some c) cs))"

definition finditer :: "bool \<Rightarrow> regex \<Rightarrow> string \<Rightarrow> (nat \<times> string) list" where
  "finditer ic r s = scan ic r 0 0 None s"

text \<open>\<^verbatim>\<open>re.search\<close>: the first match, if any.\<close>

definition search :: "bool \<Rightarrow> regex \<Rightarrow> string \<Rightarrow> (nat \<times> string) option" where
  "search ic r s = (case finditer ic r s of [] \<Rightarrow> None | m # _ \<Rightarrow> Some m)"

text \<open>\<^verbatim>\<open>re.split\<close> for a pattern without groups: the spans between the matches.
  \<open>pos\<close> is the offset of the first character of the rest.\<close>

fun spans :: "nat \<Rightarrow> (nat \<times> string) list \<Rightarrow> string \<Rightarrow> string list" where
  "spans pos [] s = [s]"
| "spans pos ((i, m) # ms) s =
     take (i - pos) s # spans (i + length m) ms (drop (i - pos + length m) s)"

definition re_split :: "bool \<Rightarrow> regex \<Rightarrow> string \<Rightarrow> string list" where
  "re_split ic r s = spans 0 (finditer ic r s) s"

text \<open>\<^verbatim>\<open>re.sub\<close> with a constant replacement: the spans joined by the replacement.\<close>

definition re_sub :: "bool \<Rightarrow> regex \<Rightarrow> string \<Rightarrow> string \<Rightarrow> string" where
  "re_sub ic r repl s = join repl (re_split ic r s)"

section \<open>Floating-point statistics\<close>

text \<open>
  \<^verbatim>\<open>word_count / max(1, sentence_count)\<close> is the true division of two integers: the
  quotient rounded to the nearest double, ties to the even significand (53 bits).
  \<^verbatim>\<open>round(x, 1)\<close> rounds the exact value of the double \<^verbatim>\<open>x\<close> to one decimal, ties to
  even, and returns the double nearest to that decimal. Doubles are modelled by the
  rationals they denote, and the result of \<^verbatim>\<open>round(x, 1)\<close> by the decimal it prints.
  Counts of words stay far inside the exponent range of doubles, so overflow and
  subnormals are not modelled.
\<close>

fun bit_length :: "nat \<Rightarrow> nat" where
  "bit_length n = (if n = 0 then 0 else Suc (bit_length (n div 2)))"

declare bit_length.simps [simp del]

definition pow2 :: "int \<Rightarrow> rat" where
  "pow2 e = (if 0 \<le> e then 2 ^ nat e else 1 / 2 ^ nat (- e))"

definition round_half_even :: "rat \<Rightarrow> int" where
  "round_half_even x =
     (let f = \<lfloor>x\<rfloor>; d = x - of_int f
      in if d < 1 / 2 then f else if 1 / 2 < d then f + 1 else if even f then f else f + 1)"

text \<open>The exponent \<open>e\<close> with \<open>2 ^ e \<le> a / b < 2 ^ (e + 1)\<close>, for positive \<open>a\<close> and \<open>b\<close>.\<close>

definition binade :: "nat \<Rightarrow> nat \<Rightarrow> int" where
  "binade a b =
     (let e = int (bit_length a) - int (bit_length b)
      in if of_nat b * pow2 e \<le> of_nat a then e else e - 1)"

text \<open>\<^verbatim>\<open>a / b\<close> on non-negative integers, for a divisor that is not zero (the analyzer
  divides by \<^verbatim>\<open>max(1, sentence_count)\<close>).\<close>

definition truediv :: "nat \<Rightarrow> nat \<Rightarrow> rat" where
  "truediv a b =
     (if a = 0 then 0
      else let e = binade a b
           in of_int (round_half_even (of_nat a / of_nat b * pow2 (52 - e))) * pow2 (e - 52))"

definition round1 :: "rat \<Rightarrow> rat" where
  "round1 x = of_int (round_half_even (x * 10)) / 10"

section \<open>Static rule set\<close>

text \<open>
  \<^verbatim>\<open>self.patterns\<close> (lines 37 to 45). The analysis reads four of its entries, all with
  \<^verbatim>\<open>re.IGNORECASE\<close>; the other three are never used by the source.
\<close>

definition words_of :: "string list \<Rightarrow> regex" where
  "words_of ws = foldr Alt (map Lit (butlast ws)) (Lit (last ws))"

text \<open>\<^verbatim>\<open>\b(it's|you're|we're|don't|can't|won't|let's|you'll|we'll)\b\<close>\<close>

definition contractions_pattern :: regex where
  "contractions_pattern =
     Seq Boundary
       (Seq (words_of [''it's'', ''you're'', ''we're'', ''don't'', ''can't'', ''won't'',
                       ''let's'', ''you'll'', ''we'll''])
            Boundary)"

text \<open>\<^verbatim>\<open>\byou\b\<close>\<close>

definition you_addressing_pattern :: regex where
  "you_addressing_pattern = Seq Boundary (Seq (Lit ''you'') Boundary)"

text \<open>\<^verbatim>\<open>\b(is|are|was|were|been|be)\s+\w*ed\b\<close>\<close>

definition passive_voice_pattern :: regex where
  "passive_voice_pattern =
     Seq Boundary
       (Seq (words_of [''is'', ''are'', ''was'', ''were'', ''been'', ''be''])
            (Seq (Rep is_space 1 True) (Seq (Rep is_word 0 True) (Seq (Lit ''ed'') Boundary))))"

text \<open>\<^verbatim>\<open>\b(guys|mankind|blacklist|whitelist|master|slave|crazy|insane|lame)\b\<close>\<close>

definition non_inclusive_terms_pattern :: regex where
  "non_inclusive_terms_pattern =
     Seq Boundary
       (Seq (words_of [''guys'', ''mankind'', ''blacklist'', ''whitelist'', ''master'',
                       ''slave'', ''crazy'', ''insane'', ''lame''])
            Boundary)"

text \<open>\<^verbatim>\<open>[.!?]+\<close>, the separator of sentences (line 137, no flags).\<close>

definition sentence_end_pattern :: regex where
  "sentence_end_pattern = Rep (\<lambda>c. c = CHR ''.'' \<or> c = CHR ''!'' \<or> c = CHR ''?'') 1 True"

text \<open>\<^verbatim>\<open>self.terminology_standards\<close> (lines 48 to 55), in the order of the dictionary.\<close>

record standard =
  correct :: string
  avoid :: "string list"
  usage_note :: string

definition terminology_standards :: "(string \<times> standard) list" where
  "terminology_standards =
     [(''AI'', \<lparr>correct = ''AI'', avoid = [''A.I.''], usage_note = ''No periods''\<rparr>),
      (''email'', \<lparr>correct = ''email'', avoid = [''e-mail''], usage_note = ''One word''\<rparr>),
      (''website'', \<lparr>correct = ''website'', avoid = [''web site''], usage_note = ''One word''\<rparr>),
      (''sign_in'', \<lparr>correct = ''sign in (verb), sign-in (noun)'',
                      avoid = [''login'', ''log in''], usage_note = ''Microsoft standard''\<rparr>),
      (''setup'', \<lparr>correct = ''set up (verb), setup (noun)'',
                    avoid = [''setup (verb)''], usage_note = ''Context dependent''\<rparr>),
      (''wifi'', \<lparr>correct = ''Wi-Fi'', avoid = [''WiFi'', ''wifi''],
                   usage_note = ''Hyphenated, both caps''\<rparr>)]"

section \<open>Content fetcher\<close>

text \<open>
  The environment of the analyzer. \<open>net n url\<close> is what the \<open>n\<close>-th request issued by
  the analyzer meets when it asks for \<open>url\<close>: an exception (connection, timeout, or
  decoding of the body) with its message, or a response with its status and body.
  \<open>loop_time n\<close> is the reading of the event loop's clock after \<open>n\<close> requests.
  \<open>set_order xs\<close> is the order in which Python iterates over \<^verbatim>\<open>set(xs)\<close>; it depends on
  the hashes of the process, so it is a parameter.
\<close>

datatype net_outcome = Raises string | Responds nat string

record world =
  net :: "nat \<Rightarrow> string \<Rightarrow> net_outcome"
  loop_time :: "nat \<Rightarrow> real"
  set_order :: "string list \<Rightarrow> string list"


definition first_seen :: "'a list \<Rightarrow> 'a list" where
  "first_seen xs = rev (remdups (rev xs))"

text \<open>The two shapes of the dictionary \<^verbatim>\<open>fetch_web_content\<close> returns; \<open>success\<close> is
  its \<^verbatim>\<open>"success"\<close> entry.\<close>

datatype fetch_result =
    success: Fetched (url: string) (title: string) (content: string)
      (full_content: string) (timestamp: real)
  | Failed (error: string) (url: string)

text \<open>
  The analyzer object: \<^verbatim>\<open>core_urls\<close> (a dictionary, in insertion order) and
  \<^verbatim>\<open>content_cache\<close>. \<open>requests\<close> counts the requests issued so far; it indexes the
  environment and is not a field of the source. The HTTP session is transport only and
  is left out.
\<close>

record analyzer =
  core_urls :: "(string \<times> string) list"
  content_cache :: "string \<rightharpoonup> fetch_result"
  requests :: nat

definition style_guide_base_url :: string where
  "style_guide_base_url = ''https://learn.microsoft.com/en-us/style-guide''"

definition init :: analyzer where
  "init =
     \<lparr>core_urls =
        [(''voice_tone'', style_guide_base_url @ ''/brand-voice-above-all-simple-human''),
         (''top_tips'', style_guide_base_url @ ''/top-10-tips-style-voice''),
         (''bias_free'', style_guide_base_url @ ''/bias-free-communication''),
         (''writing_tips'', style_guide_base_url @ ''/global-communications/writing-tips''),
         (''welcome'', style_guide_base_url @ ''/welcome/''),
         (''word_list'', style_guide_base_url @ ''/a-z-word-list-term-collections'')],
      content_cache = Map.empty,
      requests = 0\<rparr>"

text \<open>The patterns of lines 92 to 99 (no flags but \<^verbatim>\<open>re.DOTALL\<close>, under which the dot
  is any character): \<^verbatim>\<open><title>([^<]+)</title>\<close>, \<^verbatim>\<open><script[^>]*>.*?</script>\<close>,
  \<^verbatim>\<open><style[^>]*>.*?</style>\<close> and \<^verbatim>\<open><[^>]+>\<close>.\<close>

definition title_pattern :: regex where
  "title_pattern =
     Seq (Lit ''<title>'') (Seq (Rep (\<lambda>c. c \<noteq> CHR ''<'') 1 True) (Lit ''</title>''))"

definition block_pattern :: "string \<Rightarrow> regex" where
  "block_pattern tag =
     Seq (Lit (''<'' @ tag))
       (Seq (Rep (\<lambda>c. c \<noteq> CHR ''>'') 0 True)
          (Seq (Lit ''>'') (Seq (Rep (\<lambda>c. True) 0 False) (Lit (''</'' @ tag @ ''>'')))))"

definition tag_pattern :: regex where
  "tag_pattern = Seq (Lit ''<'') (Seq (Rep (\<lambda>c. c \<noteq> CHR ''>'') 1 True) (Lit ''>''))"

text \<open>Lines 91 to 109: the result built from the body of a response with status 200.
  Group 1 of the title match is the match without its first 7 and last 8 characters.\<close>

definition page_result :: "string \<Rightarrow> string \<Rightarrow> real \<Rightarrow> fetch_result" where
  "page_result u body now =
     (let title_match = search False title_pattern body;
          ttl = (case title_match of
                   Some (i, m) \<Rightarrow> take (length m - 15) (drop 7 m)
                 | None \<Rightarrow> ''Microsoft Style Guide'');
          text_content = re_sub False (block_pattern ''script'') [] body;
          text_content = re_sub False (block_pattern ''style'') [] text_content;
          text_content = re_sub False tag_pattern '' '' text_content;
          text_content = join '' '' (split text_content)
      in Fetched u ttl (take 2000 text_content) text_content now)"

text \<open>\<^verbatim>\<open>fetch_web_content\<close> (lines 77 to 127). Every exception raised inside the
  \<^verbatim>\<open>try\<close> block is caught and returned as data.\<close>

definition fetch_web_content :: "world \<Rightarrow> analyzer \<Rightarrow> string \<Rightarrow> fetch_result \<times> analyzer" where
  "fetch_web_content w s u =
     (case content_cache s u of
        Some cached_data \<Rightarrow> (cached_data, s)
      | None \<Rightarrow>
          (let s1 = s\<lparr>requests := Suc (requests s)\<rparr>
           in case net w (requests s) u of
                Raises e \<Rightarrow> (Failed e u, s1)
              | Responds status body \<Rightarrow>
                  if status = 200
                  then (let result = page_result u body (loop_time w (requests s1))
                        in (result, s1\<lparr>content_cache := (content_cache s1)(u \<mapsto> result)\<rparr>))
                  else (Failed (''HTTP '' @ str_nat status) u, s1)))"

section \<open>Relevance ranker\<close>

text \<open>An entry of \<^verbatim>\<open>search_results\<close> (lines 262 to 269); the fields \<^verbatim>\<open>section\<close>,
  \<^verbatim>\<open>title\<close> and \<^verbatim>\<open>url\<close> carry the prefix \<open>hit\<close>.\<close>

record search_result =
  hit_section :: string
  hit_title :: string
  hit_url :: string
  relevance :: string
  content_preview :: string
  official :: bool

record search_response =
  query :: string
  results :: "search_result list"
  total_found :: nat
  search_web_enabled :: bool
  search_timestamp :: real

definition relevance_score :: "string list \<Rightarrow> string \<Rightarrow> nat" where
  "relevance_score search_terms cont = length (filter (\<lambda>term. contains cont term) search_terms)"

text \<open>Lines 257 to 269: what one section adds to \<^verbatim>\<open>search_results\<close>, given the
  result of fetching its page.\<close>

definition section_hits ::
  "string list \<Rightarrow> string \<Rightarrow> string \<Rightarrow> fetch_result \<Rightarrow> search_result list" where
  "section_hits search_terms section u content_result =
     (if success content_result
      then (let cont = lower (full_content content_result)
            in if 0 < relevance_score search_terms cont
               then [\<lparr>hit_section = section,
                      hit_title = title content_result,
                      hit_url = u,
                      relevance =
                        (if length search_terms div 2 \<le> relevance_score search_terms cont
                         then ''high'' else ''medium''),
                      content_preview = content content_result,
                      official = True\<rparr>]
               else [])
      else [])"

text \<open>The loop of lines 254 to 269 over \<^verbatim>\<open>self.core_urls.items()\<close>.\<close>

fun search_sections ::
  "world \<Rightarrow> string list \<Rightarrow> (string \<times> string) list \<Rightarrow> analyzer \<Rightarrow> search_result list \<times> analyzer" where
  "search_sections w search_terms [] s = ([], s)"
| "search_sections w search_terms ((section, u) # rest) s =
     (let (content_result, s1) = fetch_web_content w s u;
          (more, s2) = search_sections w search_terms rest s1
      in (section_hits search_terms section u content_result @ more, s2))"

text \<open>\<^verbatim>\<open>list.sort(key=..., reverse=True)\<close>: a stable sort into descending order of
  the keys, which CPython computes by reversing, sorting upwards and reversing again.\<close>

definition sort_reverse :: "('a \<Rightarrow> 'k::linorder) \<Rightarrow> 'a list \<Rightarrow> 'a list" where
  "sort_reverse f xs = rev (sort_key f (rev xs))"

definition sort_key_of :: "search_result \<Rightarrow> bool \<times> string" where
  "sort_key_of x = (relevance x = ''high'', hit_section x)"

text \<open>\<^verbatim>\<open>search_style_guide_live\<close> (lines 247 to 289). None of the operations modelled
  inside its \<^verbatim>\<open>try\<close> block raises.\<close>

definition search_style_guide_live ::
  "world \<Rightarrow> analyzer \<Rightarrow> string \<Rightarrow> search_response \<times> analyzer" where
  "search_style_guide_live w s q =
     (let search_terms = split (lower q);
          (search_results, s1) = search_sections w search_terms (core_urls s) s;
          search_results = sort_reverse sort_key_of search_results
      in (\<lparr>query = q,
           results = take 5 search_results,
           total_found = length search_results,
           search_web_enabled = True,
           search_timestamp = loop_time w (requests s1)\<rparr>, s1))"

text \<open>The list under \<^verbatim>\<open>"results"\<close> of the dictionary returned.\<close>

definition search_results :: "world \<Rightarrow> analyzer \<Rightarrow> string \<Rightarrow> search_result list" where
  "search_results w s q = results (fst (search_style_guide_live w s q))"

section \<open>Guidance lookup\<close>

text \<open>An entry of \<^verbatim>\<open>guidance_results\<close> (lines 326 to 332), fields prefixed with
  \<open>guide\<close>.\<close>

record guidance_item =
  guide_section :: string
  guide_title :: string
  guide_url :: string
  guide_content :: string
  guide_official :: bool

record guidance_response =
  topic :: string
  guidance :: "guidance_item list"
  guidance_web_enabled :: bool
  guidance_timestamp :: real

definition topic_mappings :: "(string \<times> string) list" where
  "topic_mappings =
     [(''voice'', ''voice_tone''), (''tone'', ''voice_tone''), (''tips'', ''top_tips''),
      (''bias'', ''bias_free''), (''inclusive'', ''bias_free''), (''writing'', ''writing_tips''),
      (''grammar'', ''writing_tips''), (''words'', ''word_list''),
      (''terminology'', ''word_list'')]"

text \<open>Lines 325 to 332: what one section adds to \<^verbatim>\<open>guidance_results\<close>.\<close>

definition section_guidance :: "string \<Rightarrow> string \<Rightarrow> fetch_result \<Rightarrow> guidance_item list" where
  "section_guidance section u content_result =
     (if success content_result
      then [\<lparr>guide_section = section,
             guide_title = title content_result,
             guide_url = u,
             guide_content = content content_result,
             guide_official = True\<rparr>]
      else [])"

text \<open>The loop of lines 320 to 332.\<close>

fun guidance_sections ::
  "world \<Rightarrow> string list \<Rightarrow> analyzer \<Rightarrow> guidance_item list \<times> analyzer" where
  "guidance_sections w [] s = ([], s)"
| "guidance_sections w (section # rest) s =
     (case map_of (core_urls s) section of
        None \<Rightarrow> guidance_sections w rest s
      | Some u \<Rightarrow>
          (let (content_result, s1) = fetch_web_content w s u;
               (more, s2) = guidance_sections w rest s1
           in (section_guidance section u content_result @ more, s2)))"

text \<open>\<^verbatim>\<open>get_official_guidance\<close> (lines 291 to 348).\<close>

definition get_official_guidance ::
  "world \<Rightarrow> analyzer \<Rightarrow> string \<Rightarrow> guidance_response \<times> analyzer" where
  "get_official_guidance w s tp =
     (let topic_lower = lower tp;
          relevant_sections = map snd (filter (\<lambda>(k, section). contains topic_lower k) topic_mappings);
          relevant_sections =
            (if relevant_sections = [] then map fst (core_urls s) else relevant_sections);
          (guidance_results, s1) = guidance_sections w (take 3 relevant_sections) s
      in (\<lparr>topic = tp,
           guidance = guidance_results,
           guidance_web_enabled = True,
           guidance_timestamp = loop_time w (requests s1)\<rparr>, s1))"

section \<open>Text analyzer\<close>

text \<open>
  An entry of \<^verbatim>\<open>issues\<close>: the keys \<^verbatim>\<open>type\<close>, \<^verbatim>\<open>text\<close> and \<^verbatim>\<open>note\<close> of the
  source are the fields \<open>issue_type\<close>, \<open>matched_text\<close> and \<open>issue_note\<close>; a key that
  an entry does not have is \<open>None\<close>. An entry of \<^verbatim>\<open>suggestions\<close> has the keys
  \<^verbatim>\<open>type\<close>, \<^verbatim>\<open>message\<close> and \<^verbatim>\<open>principle\<close>.
\<close>

record issue =
  issue_type :: string
  severity :: string
  position :: "nat option"
  matched_text :: "string option"
  message :: string
  principle :: "string option"
  issue_note :: "string option"

record suggestion =
  suggestion_type :: string
  suggestion_message :: string
  suggestion_principle :: string

record statistics =
  word_count :: nat
  sentence_count :: nat
  avg_words_per_sentence :: rat

text \<open>The three values of \<^verbatim>\<open>status\<close>, each in the source a symbol followed by the
  words \<^verbatim>\<open>Excellent\<close>, \<^verbatim>\<open>Good\<close> and \<^verbatim>\<open>Needs Work\<close>.\<close>

datatype status_label = Excellent | Good | Needs_Work

record analysis_result =
  status :: status_label
  assessment :: string
  stats :: statistics
  issues :: "issue list"
  suggestions :: "suggestion list"
  total_issues :: nat
  analysis_type :: string
  style_guide_url :: string
  live_guidance :: "string \<rightharpoonup> guidance_item"
  web_enabled :: bool
  analysis_timestamp :: real

definition apostrophe :: string where
  "apostrophe = [CHR 0x27]"

text \<open>Lines 136 to 140.\<close>

definition sentences_of :: "string \<Rightarrow> string list" where
  "sentences_of txt = filter (\<lambda>s. strip s \<noteq> []) (re_split False sentence_end_pattern txt)"

definition basic_statistics :: "string \<Rightarrow> statistics" where
  "basic_statistics txt =
     (let wc = length (split txt);
          sc = length (sentences_of txt)
      in \<lparr>word_count = wc,
          sentence_count = sc,
          avg_words_per_sentence = round1 (truediv wc (max 1 sc))\<rparr>)"

text \<open>Lines 143 to 165: the counts of contractions and of \<^verbatim>\<open>you\<close>, with the issue or
  the suggestions they lead to. \<^verbatim>\<open>len(re.findall(...))\<close> is the number of matches.\<close>

definition contractions_count :: "string \<Rightarrow> nat" where
  "contractions_count txt = length (finditer True contractions_pattern txt)"

definition you_usage :: "string \<Rightarrow> nat" where
  "you_usage txt = length (finditer True you_addressing_pattern txt)"

definition contractions_suggestion :: "nat \<Rightarrow> suggestion" where
  "contractions_suggestion n =
     \<lparr>suggestion_type = ''positive'',
      suggestion_message =
        ''Good use of contractions ('' @ str_nat n @ '' found) - supports warm, natural tone'',
      suggestion_principle = ''warm_and_relaxed''\<rparr>"

definition contractions_issue :: issue where
  "contractions_issue =
     \<lparr>issue_type = ''voice_tone'',
      severity = ''info'',
      position = None,
      matched_text = None,
      message = ''Consider using contractions (it's, you're, we'll) for a more natural tone'',
      principle = Some ''warm_and_relaxed'',
      issue_note = None\<rparr>"

definition you_suggestion :: "nat \<Rightarrow> suggestion" where
  "you_suggestion n =
     \<lparr>suggestion_type = ''positive'',
      suggestion_message =
        ''Good use of 'you' ('' @ str_nat n @ '' instances) - directly engages readers'',
      suggestion_principle = ''ready_to_help''\<rparr>"

definition positive_issues :: "string \<Rightarrow> issue list" where
  "positive_issues txt = (if 0 < contractions_count txt then [] else [contractions_issue])"

definition positive_suggestions :: "string \<Rightarrow> suggestion list" where
  "positive_suggestions txt =
     (if 0 < contractions_count txt then [contractions_suggestion (contractions_count txt)] else [])
     @ (if 0 < you_usage txt then [you_suggestion (you_usage txt)] else [])"

text \<open>Lines 168 to 178.\<close>

definition grammar_issue :: "nat \<times> string \<Rightarrow> issue" where
  "grammar_issue m =
     \<lparr>issue_type = ''grammar'',
      severity = ''warning'',
      position = Some (fst m),
      matched_text = Some (snd m),
      message = ''Consider using active voice for clarity'',
      principle = Some ''crisp_and_clear'',
      issue_note = None\<rparr>"

definition grammar_issues :: "string \<Rightarrow> string \<Rightarrow> issue list" where
  "grammar_issues txt atype =
     (if atype \<in> set [''comprehensive'', ''grammar'']
      then map grammar_issue (finditer True passive_voice_pattern txt) else [])"

text \<open>Lines 180 to 190.\<close>

definition terminology_issue :: "standard \<Rightarrow> string \<Rightarrow> issue" where
  "terminology_issue std avoid_term =
     \<lparr>issue_type = ''terminology'',
      severity = ''warning'',
      position = None,
      matched_text = Some avoid_term,
      message =
        ''Use '' @ apostrophe @ correct std @ apostrophe @ '' instead of ''
        @ apostrophe @ avoid_term @ apostrophe,
      principle = None,
      issue_note = Some (usage_note std)\<rparr>"

definition terminology_issues :: "string \<Rightarrow> string \<Rightarrow> issue list" where
  "terminology_issues txt atype =
     (if atype \<in> set [''comprehensive'', ''terminology'']
      then concat (map (\<lambda>(term, std).
             concat (map (\<lambda>avoid_term.
               if contains (lower txt) (lower avoid_term)
               then [terminology_issue std avoid_term] else []) (avoid std)))
           terminology_standards)
      else [])"

text \<open>Lines 192 to 202.\<close>

definition accessibility_issue :: "nat \<times> string \<Rightarrow> issue" where
  "accessibility_issue m =
     \<lparr>issue_type = ''accessibility'',
      severity = ''error'',
      position = Some (fst m),
      matched_text = Some (snd m),
      message = apostrophe @ snd m @ apostrophe @ '' may not be inclusive - consider alternatives'',
      principle = Some ''bias_free_communication'',
      issue_note = None\<rparr>"

definition accessibility_issues :: "string \<Rightarrow> string \<Rightarrow> issue list" where
  "accessibility_issues txt atype =
     (if atype \<in> set [''comprehensive'', ''accessibility'']
      then map accessibility_issue (finditer True non_inclusive_terms_pattern txt) else [])"

text \<open>The list \<^verbatim>\<open>issues\<close> as it stands at line 203.\<close>

definition detected_issues :: "string \<Rightarrow> string \<Rightarrow> issue list" where
  "detected_issues txt atype =
     positive_issues txt @ grammar_issues txt atype @ terminology_issues txt atype
     @ accessibility_issues txt atype"

text \<open>Lines 205 to 215. \<open>guidance_topics\<close> is \<^verbatim>\<open>issue_types[:2]\<close>, the topics for which
  \<^verbatim>\<open>get_official_guidance\<close> is called; nothing is looked up without an issue.\<close>

definition guidance_topics :: "world \<Rightarrow> issue list \<Rightarrow> string list" where
  "guidance_topics w iss = (if iss = [] then [] else take 2 (set_order w (map issue_type iss)))"

fun collect_guidance ::
  "world \<Rightarrow> string list \<Rightarrow> (string \<rightharpoonup> guidance_item) \<Rightarrow> analyzer
   \<Rightarrow> (string \<rightharpoonup> guidance_item) \<times> analyzer" where
  "collect_guidance w [] lg s = (lg, s)"
| "collect_guidance w (tp # rest) lg s =
     (let (g, s1) = get_official_guidance w s tp
      in collect_guidance w rest
           (case guidance g of [] \<Rightarrow> lg | first # _ \<Rightarrow> lg(tp \<mapsto> first)) s1)"

text \<open>Lines 218 to 227.\<close>

definition assess :: "nat \<Rightarrow> status_label \<times> string" where
  "assess n =
     (if n = 0 then (Excellent, ''Content follows Microsoft Style Guide principles well'')
      else if n \<le> 2 then (Good, ''Minor style improvements suggested'')
      else (Needs_Work, ''Multiple style issues detected''))"

text \<open>\<^verbatim>\<open>analyze_content\<close> (lines 129 to 245).\<close>

definition analyze_content ::
  "world \<Rightarrow> analyzer \<Rightarrow> string \<Rightarrow> string \<Rightarrow> analysis_result \<times> analyzer" where
  "analyze_content w s txt atype =
     (let iss = detected_issues txt atype;
          (lg, s1) = collect_guidance w (guidance_topics w iss) Map.empty s;
          n = length iss
      in (\<lparr>status = fst (assess n),
           assessment = snd (assess n),
           stats = basic_statistics txt,
           issues = iss,
           suggestions = positive_suggestions txt,
           total_issues = n,
           analysis_type = atype,
           style_guide_url = style_guide_base_url,
           live_guidance = lg,
           web_enabled = True,
           analysis_timestamp = loop_time w (requests s1)\<rparr>, s1))"

section \<open>Operations reachable from a state\<close>

text \<open>\<open>later s s'\<close>: the analyzer can go from state \<open>s\<close> to state \<open>s'\<close> by a sequence of
  its operations, each in an environment of its own.\<close>

inductive later :: "analyzer \<Rightarrow> analyzer \<Rightarrow> bool" where
  later_refl: "later s s"
| later_fetch: "later s s' \<Longrightarrow> later s (snd (fetch_web_content w s' u))"
| later_search: "later s s' \<Longrightarrow> later s (snd (search_style_guide_live w s' q))"
| later_guidance: "later s s' \<Longrightarrow> later s (snd (get_official_guidance w s' tp))"
| later_analyze: "later s s' \<Longrightarrow> later s (snd (analyze_content w s' txt atype))"

text \<open>An environment and a state for the concrete instances below: the first page
  answers with status 200, the second with 404, and any other request times out.\<close>

definition demo_world :: world where
  "demo_world =
     \<lparr>net = (\<lambda>n u. if u = ''u1''
                     then Responds 200 ''<title>Bias</title><script>x</script><p>Bias free</p>''
                     else if u = ''u2'' then Responds 404 [] else Raises ''timeout''),
      loop_time = (\<lambda>n. of_nat n),
      set_order = first_seen\<rparr>"

definition silent_world :: world where
  "silent_world = \<lparr>net = (\<lambda>n u. Raises ''offline''), loop_time = (\<lambda>n. 0), set_order = rev \<circ> remdups\<rparr>"

definition demo_state :: analyzer where
  "demo_state =
     \<lparr>core_urls = [(''a'', ''u1''), (''b'', ''u2''), (''c'', ''u3'')],
      content_cache = Map.empty,
      requests = 0\<rparr>"

text \<open>An environment in which three pages answer with the bodies \<^verbatim>\<open>x\<close>, \<^verbatim>\<open>X y\<close> and
  \<^verbatim>\<open>y x\<close>.\<close>

definition pages_world :: world where
  "pages_world =
     \<lparr>net = (\<lambda>n u. if u = ''u1'' then Responds 200 ''x''
                     else if u = ''u2'' then Responds 200 ''X y''
                     else if u = ''u3'' then Responds 200 ''y x''
                     else Responds 500 []),
      loop_time = (\<lambda>n. of_nat n),
      set_order = first_seen\<rparr>"

section \<open>The statistics as the specification words them\<close>

text \<open>
  The specification calls \<^verbatim>\<open>word_count\<close> the number of tokens between white space:
  \<open>word_starts\<close> counts the positions where such a token begins. It calls
  \<^verbatim>\<open>sentence_count\<close> the number of non-empty spans left by splitting at the runs of
  \<^verbatim>\<open>.\<close>, \<^verbatim>\<open>!\<close> and \<^verbatim>\<open>?\<close>: \<open>nonempty_span_count\<close> counts these.
\<close>

text \<open>\<open>starts_after b s\<close> counts the tokens that begin in \<open>s\<close>, where \<open>b\<close> tells whether
  the character before \<open>s\<close> is white space (or \<open>s\<close> is the whole text).\<close>

fun starts_after :: "bool \<Rightarrow> string \<Rightarrow> nat" where
  "starts_after b [] = 0"
| "starts_after b (c # cs) = (if \<not> is_space c \<and> b then 1 else 0) + starts_after (is_space c) cs"

definition word_starts :: "string \<Rightarrow> nat" where
  "word_starts txt =
     length (filter (\<lambda>i. \<not> is_space (txt ! i) \<and> (i = 0 \<or> is_space (txt ! (i - 1))))
               [0 ..< length txt])"

definition nonempty_span_count :: "string \<Rightarrow> nat" where
  "nonempty_span_count txt =
     length (filter (\<lambda>s. s \<noteq> []) (re_split False sentence_end_pattern txt))"

section \<open>The cache only grows\<close>

lemma fetch_hit:
  "content_cache s u = Some e \<Longrightarrow> fetch_web_content w s u = (e, s)"
  by (simp add: fetch_web_content_def)

lemma fetch_core_urls [simp]:
  "core_urls (snd (fetch_web_content w s u)) = core_urls s"
  by (simp add: fetch_web_content_def Let_def split: option.splits net_outcome.splits)

lemma fetch_keeps_entry:
  "content_cache s k = Some e \<Longrightarrow> content_cache (snd (fetch_web_content w s u)) k = Some e"
  by (auto simp: fetch_web_content_def Let_def split: option.splits net_outcome.splits)

lemma fetch_success_cached:
  "fetch_web_content w s u = (r, s') \<Longrightarrow> success r \<Longrightarrow> content_cache s' u = Some r"
  by (auto simp: fetch_web_content_def Let_def split: option.splits net_outcome.splits if_splits)

lemma fetch_failure_cache:
  "\<not> success (fst (fetch_web_content w s u)) \<Longrightarrow>
     content_cache (snd (fetch_web_content w s u)) = content_cache s"
  by (auto simp: fetch_web_content_def Let_def page_result_def split: option.splits net_outcome.splits if_splits)

lemma search_sections_keeps_entry:
  "content_cache s k = Some e \<Longrightarrow>
     content_cache (snd (search_sections w ts cat s)) k = Some e"
proof (induction cat arbitrary: s)
  case Nil
  then show ?case by simp
next
  case (Cons a cat)
  obtain sec u where a: "a = (sec, u)" by (cases a)
  obtain r s1 where f: "fetch_web_content w s u = (r, s1)" by (cases "fetch_web_content w s u")
  have "content_cache s1 k = Some e"
    using fetch_keeps_entry [OF Cons.prems, of w u] f by simp
  from Cons.IH [OF this] show ?case
    by (simp add: a f case_prod_unfold Let_def)
qed

lemma search_sections_core_urls [simp]:
  "core_urls (snd (search_sections w ts cat s)) = core_urls s"
proof (induction cat arbitrary: s)
  case Nil
  then show ?case by simp
next
  case (Cons a cat)
  obtain sec u where a: "a = (sec, u)" by (cases a)
  obtain r s1 where f: "fetch_web_content w s u = (r, s1)" by (cases "fetch_web_content w s u")
  have "core_urls s1 = core_urls s" using fetch_core_urls [of w s u] f by simp
  with Cons.IH [of s1] show ?case
    by (simp add: a f case_prod_unfold Let_def)
qed

lemma search_keeps_entry:
  "content_cache s k = Some e \<Longrightarrow>
     content_cache (snd (search_style_guide_live w s q)) k = Some e"
  using search_sections_keeps_entry [of s k e w "split (lower q)" "core_urls s"]
  by (simp add: search_style_guide_live_def Let_def case_prod_unfold Let_def)

lemma guidance_sections_keeps_entry:
  "content_cache s k = Some e \<Longrightarrow>
     content_cache (snd (guidance_sections w secs s)) k = Some e"
proof (induction secs arbitrary: s)
  case Nil
  then show ?case by simp
next
  case (Cons sec rest)
  show ?case
  proof (cases "map_of (core_urls s) sec")
    case None
    with Cons show ?thesis by simp
  next
    case (Some u)
    obtain r s1 where f: "fetch_web_content w s u = (r, s1)" by (cases "fetch_web_content w s u")
    have "content_cache s1 k = Some e"
      using fetch_keeps_entry [OF Cons.prems, of w u] f by simp
    from Cons.IH [OF this] show ?thesis
      by (simp add: Some f case_prod_unfold Let_def)
  qed
qed

lemma guidance_keeps_entry:
  "content_cache s k = Some e \<Longrightarrow>
     content_cache (snd (get_official_guidance w s tp)) k = Some e"
  by (simp add: get_official_guidance_def Let_def guidance_sections_keeps_entry case_prod_unfold Let_def)

lemma collect_guidance_keeps_entry:
  "content_cache s k = Some e \<Longrightarrow>
     content_cache (snd (collect_guidance w tps lg s)) k = Some e"
proof (induction tps arbitrary: lg s)
  case Nil
  then show ?case by simp
next
  case (Cons tp rest)
  obtain g s1 where f: "get_official_guidance w s tp = (g, s1)"
    by (cases "get_official_guidance w s tp")
  have "content_cache s1 k = Some e"
    using guidance_keeps_entry [OF Cons.prems, of w tp] f by simp
  from Cons.IH [OF this] show ?case by (simp add: f)
qed

lemma analyze_keeps_entry:
  "content_cache s k = Some e \<Longrightarrow>
     content_cache (snd (analyze_content w s txt atype)) k = Some e"
  using collect_guidance_keeps_entry [of s k e w "guidance_topics w (detected_issues txt atype)" Map.empty]
  by (simp add: analyze_content_def Let_def case_prod_unfold Let_def)


lemma later_keeps_entry:
  "later s s' \<Longrightarrow> content_cache s k = Some e \<Longrightarrow> content_cache s' k = Some e"
  by (induction rule: later.induct)
    (simp_all add: fetch_keeps_entry search_keeps_entry guidance_keeps_entry analyze_keeps_entry)

lemma success_page_result [simp]: "success (page_result u body now)"
  by (simp add: page_result_def Let_def)

lemma demo_fetch_u1:
  "fetch_web_content demo_world demo_state ''u1'' =
     (page_result ''u1'' ''<title>Bias</title><script>x</script><p>Bias free</p>'' 1,
      demo_state\<lparr>requests := 1,
        content_cache := [''u1'' \<mapsto> page_result ''u1'' ''<title>Bias</title><script>x</script><p>Bias free</p>'' 1]\<rparr>)"
  by (simp add: fetch_web_content_def demo_world_def demo_state_def Let_def)

section \<open>Claims about the content fetcher\<close>

text \<open>
  Claim C7. Once a fetch of a URL has succeeded, its result is in the cache, and every
  later fetch of that URL returns this stored result and leaves the state as it is,
  whatever the analyzer did in between and whatever the network and the clock would
  answer now: the entry is never checked for staleness and no request is issued.
\<close>

theorem cached_entry_is_returned:
  assumes "fetch_web_content w s u = (r, s1)" and "success r" and "later s1 s2"
  shows "fetch_web_content w' s2 u = (r, s2)"
proof -
  have "content_cache s1 u = Some r"
    using assms(1,2) by (rule fetch_success_cached)
  with assms(3) have "content_cache s2 u = Some r"
    by (rule later_keeps_entry)
  then show ?thesis by (rule fetch_hit)
qed

theorem cached_entry_is_returned_witness:
  "success (fst (fetch_web_content demo_world demo_state ''u1''))
   \<and> fetch_web_content silent_world
         (snd (search_style_guide_live silent_world
                 (snd (fetch_web_content demo_world demo_state ''u1'')) ''bias'')) ''u1''
       = (fst (fetch_web_content demo_world demo_state ''u1''),
          snd (search_style_guide_live silent_world
                 (snd (fetch_web_content demo_world demo_state ''u1'')) ''bias''))"
proof -
  have ok: "success (fst (fetch_web_content demo_world demo_state ''u1''))"
    by (simp add: demo_fetch_u1)
  have step: "later (snd (fetch_web_content demo_world demo_state ''u1''))
     (snd (search_style_guide_live silent_world
             (snd (fetch_web_content demo_world demo_state ''u1'')) ''bias''))"
    by (rule later_search) (rule later_refl)
  show ?thesis
    using ok cached_entry_is_returned [OF prod.collapse [symmetric] ok step, of silent_world]
    by simp
qed



section \<open>Claims about the relevance ranker\<close>

lemma section_hits_relevance:
  "r \<in> set (section_hits ts sec u cr) \<Longrightarrow>
     success cr \<and> hit_section r = sec \<and> hit_url r = u
     \<and> 0 < relevance_score ts (lower (full_content cr))
     \<and> relevance r = (if length ts div 2 \<le> relevance_score ts (lower (full_content cr))
                       then ''high'' else ''medium'')"
  by (auto simp: section_hits_def Let_def split: if_splits)

lemma section_hits_sections:
  "map hit_section (section_hits ts sec u cr) = [] \<or> map hit_section (section_hits ts sec u cr) = [sec]"
  by (simp add: section_hits_def Let_def)

lemma search_sections_hit:
  "r \<in> set (fst (search_sections w ts cat s)) \<Longrightarrow>
     \<exists>u e. (hit_section r, u) \<in> set cat
       \<and> content_cache (snd (search_sections w ts cat s)) u = Some e \<and> success e
       \<and> 0 < relevance_score ts (lower (full_content e))
       \<and> relevance r = (if length ts div 2 \<le> relevance_score ts (lower (full_content e))
                         then ''high'' else ''medium'')"
proof (induction cat arbitrary: s)
  case Nil
  then show ?case by simp
next
  case (Cons a cat)
  obtain sec u where a: "a = (sec, u)" by (cases a)
  obtain cr s1 where f: "fetch_web_content w s u = (cr, s1)" by (cases "fetch_web_content w s u")
  let ?rest = "search_sections w ts cat s1"
  have unfold: "search_sections w ts ((sec, u) # cat) s = (section_hits ts sec u cr @ fst ?rest, snd ?rest)"
    by (simp add: f case_prod_unfold Let_def)
  from Cons.prems have "r \<in> set (section_hits ts sec u cr) \<or> r \<in> set (fst ?rest)"
    unfolding a unfold by simp
  then show ?case
  proof
    assume h: "r \<in> set (section_hits ts sec u cr)"
    note hr = section_hits_relevance [OF h]
    from hr have "content_cache s1 u = Some cr"
      using fetch_success_cached [OF f] by simp
    then have "content_cache (snd ?rest) u = Some cr"
      by (rule search_sections_keeps_entry)
    with hr show ?thesis
      unfolding a unfold by (intro exI [of _ u] exI [of _ cr]) simp
  next
    assume "r \<in> set (fst ?rest)"
    from Cons.IH [OF this] obtain u' e where
      "(hit_section r, u') \<in> set cat"
      "content_cache (snd ?rest) u' = Some e" "success e"
      "0 < relevance_score ts (lower (full_content e))"
      "relevance r = (if length ts div 2 \<le> relevance_score ts (lower (full_content e))
                       then ''high'' else ''medium'')"
      by blast
    then show ?thesis
      unfolding a unfold by (intro exI [of _ u'] exI [of _ e]) simp
  qed
qed


lemma search_sections_distinct:
  "distinct (map fst cat) \<Longrightarrow> distinct (map hit_section (fst (search_sections w ts cat s)))"
proof (induction cat arbitrary: s)
  case Nil
  then show ?case by simp
next
  case (Cons a cat)
  obtain sec u where a: "a = (sec, u)" by (cases a)
  obtain cr s1 where f: "fetch_web_content w s u = (cr, s1)" by (cases "fetch_web_content w s u")
  let ?rest = "search_sections w ts cat s1"
  have unfold: "search_sections w ts ((sec, u) # cat) s = (section_hits ts sec u cr @ fst ?rest, snd ?rest)"
    by (simp add: f case_prod_unfold Let_def)
  have notin: "sec \<notin> hit_section ` set (fst ?rest)"
  proof
    assume "sec \<in> hit_section ` set (fst ?rest)"
    then obtain r where "r \<in> set (fst ?rest)" "hit_section r = sec" by auto
    with search_sections_hit [of r w ts cat s1] have "sec \<in> fst ` set cat" by force
    with Cons.prems show False by (simp add: a)
  qed
  from Cons have d: "distinct (map hit_section (fst ?rest))" by simp
  from section_hits_sections [of ts sec u cr] d notin show ?case
    unfolding a unfold by auto
qed

lemma sort_reverse_descending:
  "sorted_wrt (\<lambda>a b. f b \<le> f a) (sort_reverse f xs)"
proof -
  have "sorted_wrt (\<lambda>a b. f a \<le> f b) (sort_key f (rev xs))"
    using sorted_sort_key [of f "rev xs"] by (simp add: sorted_map)
  then show ?thesis by (simp add: sort_reverse_def sorted_wrt_rev)
qed

lemma set_sort_reverse [simp]: "set (sort_reverse f xs) = set xs"
  by (simp add: sort_reverse_def)



lemma distinct_map_insort_key:
  "distinct (map g (insort_key f x xs)) = (g x \<notin> g ` set xs \<and> distinct (map g xs))"
  by (induction xs) (auto simp: set_insort_key)

lemma distinct_map_sort_key: "distinct (map g (sort_key f xs)) = distinct (map g xs)"
  by (induction xs) (simp_all add: distinct_map_insort_key)

lemma distinct_map_sort_reverse: "distinct (map g (sort_reverse f xs)) = distinct (map g xs)"
  by (simp add: sort_reverse_def rev_map [symmetric] distinct_map_sort_key del: rev_map)

lemma search_results_unfold:
  "search_results w s q =
     take 5 (sort_reverse sort_key_of (fst (search_sections w (split (lower q)) (core_urls s) s)))"
  by (simp add: search_results_def search_style_guide_live_def Let_def case_prod_unfold)

lemma search_state_unfold:
  "snd (search_style_guide_live w s q) = snd (search_sections w (split (lower q)) (core_urls s) s)"
  by (simp add: search_style_guide_live_def Let_def case_prod_unfold)

lemma search_results_subset:
  "set (search_results w s q) \<subseteq> set (fst (search_sections w (split (lower q)) (core_urls s) s))"
  using set_take_subset [of 5 "sort_reverse sort_key_of (fst (search_sections w (split (lower q)) (core_urls s) s))"]
  by (simp add: search_results_unfold)

lemma search_results_descending:
  "sorted_wrt (\<lambda>a b. sort_key_of b \<le> sort_key_of a) (search_results w s q)"
  unfolding search_results_unfold by (intro sorted_wrt_take sort_reverse_descending)

lemma sort_key_of_le:
  "sort_key_of b \<le> sort_key_of a \<Longrightarrow>
     (relevance b = ''high'' \<longrightarrow> relevance a = ''high'')
     \<and> ((relevance a = ''high'') = (relevance b = ''high'') \<longrightarrow> hit_section b \<le> hit_section a)"
  by (auto simp: sort_key_of_def less_eq_prod_def)

lemma search_results_pair:
  assumes "i < j" and "j < length (search_results w s q)"
  shows "sort_key_of (search_results w s q ! j) \<le> sort_key_of (search_results w s q ! i)"
  using sorted_wrt_nth_less [OF search_results_descending assms] .

lemma search_results_distinct:
  assumes "distinct (map fst (core_urls s))"
  shows "distinct (map hit_section (search_results w s q))"
proof -
  have "distinct (map hit_section (sort_reverse sort_key_of
          (fst (search_sections w (split (lower q)) (core_urls s) s))))"
    using search_sections_distinct [OF assms] by (simp add: distinct_map_sort_reverse)
  then show ?thesis
    unfolding search_results_unfold by (simp add: take_map [symmetric] del: take_map)
qed

lemma search_results_label:
  assumes "r \<in> set (search_results w s q)"
  shows "relevance r = ''high'' \<or> relevance r = ''medium''"
proof -
  from assms search_results_subset
  have "r \<in> set (fst (search_sections w (split (lower q)) (core_urls s) s))" by blast
  from search_sections_hit [OF this] show ?thesis by (auto split: if_splits)
qed

lemma pages_search:
  "search_results pages_world demo_state ''x y z v'' =
     [\<lparr>hit_section = ''c'', hit_title = ''Microsoft Style Guide'', hit_url = ''u3'',
       relevance = ''high'', content_preview = ''y x'', official = True\<rparr>,
      \<lparr>hit_section = ''b'', hit_title = ''Microsoft Style Guide'', hit_url = ''u2'',
       relevance = ''high'', content_preview = ''X y'', official = True\<rparr>,
      \<lparr>hit_section = ''a'', hit_title = ''Microsoft Style Guide'', hit_url = ''u1'',
       relevance = ''medium'', content_preview = ''x'', official = True\<rparr>]"
  by code_simp

lemma single_token: "length (split (lower ''X'')) = 1"
  by code_simp

lemma single_search:
  "map hit_section (search_results pages_world demo_state ''X'') = [''c'', ''b'', ''a'']"
  by code_simp

text \<open>
  Claim C1. For every query, every catalog of sections and every state and
  environment, the list of results of \<^verbatim>\<open>search_style_guide_live\<close> has at most 5 entries;
  each entry is labelled high or medium and belongs to a section of the catalog whose
  page, as fetched and now cached, has a positive relevance score; no entry labelled
  high comes after an entry that is not; and among entries with the same label the
  section identifiers descend in lexicographic order, strictly so when the identifiers
  of the catalog are distinct, as the keys of a dictionary are.
\<close>

theorem search_results_ranked:
  "length (search_results w s q) \<le> 5
   \<and> (\<forall>r \<in> set (search_results w s q).
        (relevance r = ''high'' \<or> relevance r = ''medium'')
        \<and> (\<exists>u e. (hit_section r, u) \<in> set (core_urls s)
              \<and> content_cache (snd (search_style_guide_live w s q)) u = Some e \<and> success e
              \<and> 0 < relevance_score (split (lower q)) (lower (full_content e))))
   \<and> (\<forall>i j. i < j \<and> j < length (search_results w s q)
          \<and> relevance (search_results w s q ! j) = ''high''
        \<longrightarrow> relevance (search_results w s q ! i) = ''high'')
   \<and> (\<forall>i j. i < j \<and> j < length (search_results w s q)
          \<and> relevance (search_results w s q ! i) = relevance (search_results w s q ! j)
        \<longrightarrow> hit_section (search_results w s q ! j) \<le> hit_section (search_results w s q ! i))
   \<and> (distinct (map fst (core_urls s)) \<longrightarrow>
       (\<forall>i j. i < j \<and> j < length (search_results w s q)
          \<and> relevance (search_results w s q ! i) = relevance (search_results w s q ! j)
        \<longrightarrow> hit_section (search_results w s q ! j) < hit_section (search_results w s q ! i)))"
proof (intro conjI ballI allI impI)
  show "length (search_results w s q) \<le> 5"
    by (simp add: search_results_unfold)
next
  fix r assume "r \<in> set (search_results w s q)"
  then show "relevance r = ''high'' \<or> relevance r = ''medium''"
    by (rule search_results_label)
next
  fix r assume "r \<in> set (search_results w s q)"
  with search_results_subset
  have "r \<in> set (fst (search_sections w (split (lower q)) (core_urls s) s))" by blast
  from search_sections_hit [OF this]
  show "\<exists>u e. (hit_section r, u) \<in> set (core_urls s)
          \<and> content_cache (snd (search_style_guide_live w s q)) u = Some e \<and> success e
          \<and> 0 < relevance_score (split (lower q)) (lower (full_content e))"
    unfolding search_state_unfold by blast
next
  fix i j
  assume "i < j \<and> j < length (search_results w s q)
          \<and> relevance (search_results w s q ! j) = ''high''"
  then show "relevance (search_results w s q ! i) = ''high''"
    using sort_key_of_le [OF search_results_pair [of i j w s q]] by simp
next
  fix i j
  assume "i < j \<and> j < length (search_results w s q)
          \<and> relevance (search_results w s q ! i) = relevance (search_results w s q ! j)"
  then show "hit_section (search_results w s q ! j) \<le> hit_section (search_results w s q ! i)"
    using sort_key_of_le [OF search_results_pair [of i j w s q]] by simp
next
  fix i j
  assume d: "distinct (map fst (core_urls s))"
    and ij: "i < j \<and> j < length (search_results w s q)
          \<and> relevance (search_results w s q ! i) = relevance (search_results w s q ! j)"
  then have le: "hit_section (search_results w s q ! j) \<le> hit_section (search_results w s q ! i)"
    using sort_key_of_le [OF search_results_pair [of i j w s q]] by simp
  from ij have len: "i < length (map hit_section (search_results w s q))"
      "j < length (map hit_section (search_results w s q))" and ne: "i \<noteq> j"
    by simp_all
  have "map hit_section (search_results w s q) ! i \<noteq> map hit_section (search_results w s q) ! j"
    using nth_eq_iff_index_eq [OF search_results_distinct [OF d, of w q] len] ne by blast
  with ij have "hit_section (search_results w s q ! i) \<noteq> hit_section (search_results w s q ! j)"
    by simp
  with le show "hit_section (search_results w s q ! j) < hit_section (search_results w s q ! i)"
    by simp
qed

theorem search_results_ranked_witness:
  "map hit_section (search_results pages_world demo_state ''x y z v'') = [''c'', ''b'', ''a'']
   \<and> map relevance (search_results pages_world demo_state ''x y z v'')
       = [''high'', ''high'', ''medium'']
   \<and> length (search_results pages_world demo_state ''x y z v'') \<le> 5
   \<and> relevance (search_results pages_world demo_state ''x y z v'' ! 0) = ''high''
   \<and> hit_section (search_results pages_world demo_state ''x y z v'' ! 1)
       < hit_section (search_results pages_world demo_state ''x y z v'' ! 0)"
proof -
  have d: "distinct (map fst (core_urls demo_state))"
    by (simp add: demo_state_def)
  have "0 < (1::nat) \<and> 1 < length (search_results pages_world demo_state ''x y z v'')
        \<and> relevance (search_results pages_world demo_state ''x y z v'' ! 0)
            = relevance (search_results pages_world demo_state ''x y z v'' ! 1)"
    by (simp add: pages_search)
  with d search_results_ranked [of pages_world demo_state "''x y z v''"]
  have "hit_section (search_results pages_world demo_state ''x y z v'' ! 1)
       < hit_section (search_results pages_world demo_state ''x y z v'' ! 0)"
    by blast
  moreover have "length (search_results pages_world demo_state ''x y z v'') \<le> 5"
    using search_results_ranked [of pages_world demo_state "''x y z v''"] by blast
  ultimately show ?thesis by (simp add: pages_search)
qed

text \<open>
  Claim C10. When the lowered query splits into exactly one token, every result of
  \<^verbatim>\<open>search_style_guide_live\<close> is labelled high: the threshold is \<open>1 div 2 = 0\<close>.
\<close>

theorem single_token_always_high:
  assumes "length (split (lower q)) = 1"
  shows "\<forall>r \<in> set (search_results w s q). relevance r = ''high''"
proof
  fix r assume "r \<in> set (search_results w s q)"
  with search_results_subset
  have "r \<in> set (fst (search_sections w (split (lower q)) (core_urls s) s))" by blast
  from search_sections_hit [OF this] assms show "relevance r = ''high''" by auto
qed


theorem single_token_always_high_witness:
  "length (split (lower ''X'')) = 1
   \<and> map hit_section (search_results pages_world demo_state ''X'') = [''c'', ''b'', ''a'']
   \<and> list_all (\<lambda>r. relevance r = ''high'') (search_results pages_world demo_state ''X'')"
  using single_token_always_high [OF single_token, of pages_world demo_state]
  by (simp add: single_token single_search list_all_iff)


section \<open>Claims about the text analyzer\<close>

lemma analyze_issues [simp]:
  "issues (fst (analyze_content w s txt atype)) = detected_issues txt atype"
  by (simp add: analyze_content_def Let_def case_prod_unfold)

lemma analyze_status [simp]:
  "status (fst (analyze_content w s txt atype)) = fst (assess (length (detected_issues txt atype)))"
  by (simp add: analyze_content_def Let_def case_prod_unfold)

lemma analyze_suggestions [simp]:
  "suggestions (fst (analyze_content w s txt atype)) = positive_suggestions txt"
  by (simp add: analyze_content_def Let_def case_prod_unfold)

lemma analyze_stats [simp]:
  "stats (fst (analyze_content w s txt atype)) = basic_statistics txt"
  by (simp add: analyze_content_def Let_def case_prod_unfold)

lemma analyze_total [simp]:
  "total_issues (fst (analyze_content w s txt atype)) = length (detected_issues txt atype)"
  by (simp add: analyze_content_def Let_def case_prod_unfold)

lemma grammar_issues_type:
  "i \<in> set (grammar_issues txt atype) \<Longrightarrow> issue_type i = ''grammar''"
  by (auto simp: grammar_issues_def grammar_issue_def split: if_splits)

lemma terminology_issues_type:
  "i \<in> set (terminology_issues txt atype) \<Longrightarrow> issue_type i = ''terminology''"
  by (auto simp: terminology_issues_def terminology_issue_def split: if_splits)

lemma accessibility_issues_type:
  "i \<in> set (accessibility_issues txt atype) \<Longrightarrow> issue_type i = ''accessibility''"
  by (auto simp: accessibility_issues_def accessibility_issue_def split: if_splits)

lemma filter_none: "(\<And>x. x \<in> set xs \<Longrightarrow> \<not> P x) \<Longrightarrow> filter P xs = []"
  by (induction xs) auto

lemma filter_all: "(\<And>x. x \<in> set xs \<Longrightarrow> P x) \<Longrightarrow> filter P xs = xs"
  by (induction xs) auto

lemma voice_tone_issues:
  "filter (\<lambda>i. issue_type i = ''voice_tone'') (detected_issues txt atype) = positive_issues txt"
proof -
  have g: "filter (\<lambda>i. issue_type i = ''voice_tone'') (grammar_issues txt atype) = []"
    by (rule filter_none) (simp add: grammar_issues_type)
  have t: "filter (\<lambda>i. issue_type i = ''voice_tone'') (terminology_issues txt atype) = []"
    by (rule filter_none) (simp add: terminology_issues_type)
  have a: "filter (\<lambda>i. issue_type i = ''voice_tone'') (accessibility_issues txt atype) = []"
    by (rule filter_none) (simp add: accessibility_issues_type)
  have p: "filter (\<lambda>i. issue_type i = ''voice_tone'') (positive_issues txt) = positive_issues txt"
    by (simp add: positive_issues_def contractions_issue_def)
  show ?thesis by (simp add: detected_issues_def g t a p)
qed

lemma terminology_only:
  "filter (\<lambda>i. issue_type i = ''terminology'') (detected_issues txt atype)
     = terminology_issues txt atype"
proof -
  have g: "filter (\<lambda>i. issue_type i = ''terminology'') (grammar_issues txt atype) = []"
    by (rule filter_none) (simp add: grammar_issues_type)
  have t: "filter (\<lambda>i. issue_type i = ''terminology'') (terminology_issues txt atype)
             = terminology_issues txt atype"
    by (rule filter_all) (simp add: terminology_issues_type)
  have a: "filter (\<lambda>i. issue_type i = ''terminology'') (accessibility_issues txt atype) = []"
    by (rule filter_none) (simp add: accessibility_issues_type)
  have p: "filter (\<lambda>i. issue_type i = ''terminology'') (positive_issues txt) = []"
    by (simp add: positive_issues_def contractions_issue_def)
  show ?thesis by (simp add: detected_issues_def g t a p)
qed

lemma other_type_issues:
  assumes "atype \<notin> {''comprehensive'', ''grammar'', ''terminology'', ''accessibility''}"
  shows "detected_issues txt atype = positive_issues txt"
  using assms
  by (simp add: detected_issues_def grammar_issues_def terminology_issues_def
      accessibility_issues_def)

lemma eval_contraction: "contractions_count ''it's ok'' = 1"
  by code_simp

lemma eval_no_contraction: "contractions_count ''Hi'' = 0"
  by code_simp

lemma eval_three_issues:
  "map issue_type (detected_issues ''guys guys'' ''accessibility'')
     = [''voice_tone'', ''accessibility'', ''accessibility'']"
  by code_simp

lemma voice_tone_not_listed:
  "''voice_tone'' \<notin> {''comprehensive'', ''grammar'', ''terminology'', ''accessibility''}"
  by simp

lemma terminology_comprehensive:
  "terminology_issues txt ''comprehensive'' = terminology_issues txt ''terminology''"
  by (simp add: terminology_issues_def)

lemma eval_terminology:
  "terminology_issues ''Please e-mail support for login help.'' ''terminology'' =
     [\<lparr>issue_type = ''terminology'', severity = ''warning'', position = None,
       matched_text = Some ''e-mail'',
       message = ''Use '' @ apostrophe @ ''email'' @ apostrophe @ '' instead of ''
                 @ apostrophe @ ''e-mail'' @ apostrophe,
       principle = None, issue_note = Some ''One word''\<rparr>,
      \<lparr>issue_type = ''terminology'', severity = ''warning'', position = None,
       matched_text = Some ''login'',
       message = ''Use '' @ apostrophe @ ''sign in (verb), sign-in (noun)'' @ apostrophe
                 @ '' instead of '' @ apostrophe @ ''login'' @ apostrophe,
       principle = None, issue_note = Some ''Microsoft standard''\<rparr>]"
  by code_simp

lemma eval_no_log_in: "\<not> contains (lower ''Please e-mail support for login help.'') ''log in''"
  by code_simp

text \<open>
  Claim C2. For every text and analysis type, the status of the result of
  \<^verbatim>\<open>analyze_content\<close> is Excellent when the list of issues is empty, Good when it has one
  or two entries, and Needs Work when it has three or more; \<^verbatim>\<open>total_issues\<close> is the
  length of that list.
\<close>

theorem status_thresholds:
  "(issues (fst (analyze_content w s txt atype)) = []
      \<longrightarrow> status (fst (analyze_content w s txt atype)) = Excellent)
   \<and> (length (issues (fst (analyze_content w s txt atype))) = 1
       \<or> length (issues (fst (analyze_content w s txt atype))) = 2
      \<longrightarrow> status (fst (analyze_content w s txt atype)) = Good)
   \<and> (3 \<le> length (issues (fst (analyze_content w s txt atype)))
      \<longrightarrow> status (fst (analyze_content w s txt atype)) = Needs_Work)
   \<and> total_issues (fst (analyze_content w s txt atype))
       = length (issues (fst (analyze_content w s txt atype)))"
  by (auto simp: assess_def)

theorem status_thresholds_witness:
  "issues (fst (analyze_content demo_world demo_state ''it's ok'' ''voice_tone'')) = []
   \<and> status (fst (analyze_content demo_world demo_state ''it's ok'' ''voice_tone'')) = Excellent
   \<and> length (issues (fst (analyze_content demo_world demo_state ''Hi'' ''voice_tone''))) = 1
   \<and> status (fst (analyze_content demo_world demo_state ''Hi'' ''voice_tone'')) = Good
   \<and> length (issues (fst (analyze_content demo_world demo_state ''guys guys'' ''accessibility''))) = 3
   \<and> status (fst (analyze_content demo_world demo_state ''guys guys'' ''accessibility''))
       = Needs_Work"
proof -
  have a: "issues (fst (analyze_content demo_world demo_state ''it's ok'' ''voice_tone'')) = []"
    by (simp add: other_type_issues positive_issues_def eval_contraction)
  have b: "length (issues (fst (analyze_content demo_world demo_state ''Hi'' ''voice_tone''))) = 1"
    by (simp add: other_type_issues positive_issues_def eval_no_contraction)
  have c: "length (issues (fst (analyze_content demo_world demo_state ''guys guys''
             ''accessibility''))) = 3"
    using arg_cong [OF eval_three_issues, of length] by simp
  show ?thesis
    using a b c
      status_thresholds [of demo_world demo_state "''it's ok''" "''voice_tone''"]
      status_thresholds [of demo_world demo_state "''Hi''" "''voice_tone''"]
      status_thresholds [of demo_world demo_state "''guys guys''" "''accessibility''"]
    by simp
qed

text \<open>
  Claim C4. Whatever the analysis type: a text without a match of the contractions
  pattern gets exactly one issue of type \<open>voice_tone\<close>, the one of severity \<open>info\<close> that
  recommends contractions, and no suggestion praising contractions; a text with at least
  one match gets that suggestion, with the number of matches, and no issue of type
  \<open>voice_tone\<close>.
\<close>

theorem contractions_signal:
  "(contractions_count txt = 0 \<longrightarrow>
      filter (\<lambda>i. issue_type i = ''voice_tone'') (issues (fst (analyze_content w s txt atype)))
        = [contractions_issue]
      \<and> (\<forall>n. contractions_suggestion n \<notin> set (suggestions (fst (analyze_content w s txt atype)))))
   \<and> (0 < contractions_count txt \<longrightarrow>
      contractions_suggestion (contractions_count txt)
        \<in> set (suggestions (fst (analyze_content w s txt atype)))
      \<and> filter (\<lambda>i. issue_type i = ''voice_tone'') (issues (fst (analyze_content w s txt atype)))
        = [])
   \<and> issue_type contractions_issue = ''voice_tone'' \<and> severity contractions_issue = ''info''"
  by (auto simp: voice_tone_issues positive_issues_def positive_suggestions_def
      contractions_issue_def contractions_suggestion_def you_suggestion_def)

theorem contractions_signal_witness:
  "contractions_count ''Hi'' = 0
   \<and> filter (\<lambda>i. issue_type i = ''voice_tone'')
        (issues (fst (analyze_content demo_world demo_state ''Hi'' ''comprehensive'')))
       = [contractions_issue]
   \<and> contractions_count ''it's ok'' = 1
   \<and> contractions_suggestion 1
       \<in> set (suggestions (fst (analyze_content demo_world demo_state ''it's ok'' ''comprehensive'')))
   \<and> filter (\<lambda>i. issue_type i = ''voice_tone'')
        (issues (fst (analyze_content demo_world demo_state ''it's ok'' ''comprehensive'')))
       = []"
  using contractions_signal [of "''Hi''" demo_world demo_state "''comprehensive''"]
    contractions_signal [of "''it's ok''" demo_world demo_state "''comprehensive''"]
    eval_contraction eval_no_contraction
  by simp

text \<open>
  Claim C9. The analysis type is never validated. For a type that is none of
  \<open>comprehensive\<close>, \<open>grammar\<close>, \<open>terminology\<close> and \<open>accessibility\<close> (the documented
  \<open>voice_tone\<close> is such a type) the analysis returns a result whose issues are those of
  the positive-signal pass alone: at most the one issue that recommends contractions,
  so the status is never Needs Work.
\<close>

theorem unknown_type_runs_positive_pass_only:
  assumes "atype \<notin> {''comprehensive'', ''grammar'', ''terminology'', ''accessibility''}"
  shows "issues (fst (analyze_content w s txt atype))
           = (if 0 < contractions_count txt then [] else [contractions_issue])
         \<and> length (issues (fst (analyze_content w s txt atype))) \<le> 1
         \<and> status (fst (analyze_content w s txt atype)) \<noteq> Needs_Work"
  by (simp add: other_type_issues [OF assms] positive_issues_def assess_def)


theorem unknown_type_runs_positive_pass_only_witness:
  "''voice_tone'' \<notin> {''comprehensive'', ''grammar'', ''terminology'', ''accessibility''}
   \<and> issues (fst (analyze_content demo_world demo_state ''Hi'' ''voice_tone''))
       = [contractions_issue]
   \<and> issues (fst (analyze_content demo_world demo_state ''it's ok'' ''voice_tone'')) = []
   \<and> status (fst (analyze_content demo_world demo_state ''Hi'' ''voice_tone'')) \<noteq> Needs_Work"
  using unknown_type_runs_positive_pass_only [OF voice_tone_not_listed, of demo_world demo_state "''Hi''"]
    unknown_type_runs_positive_pass_only [OF voice_tone_not_listed, of demo_world demo_state "''it's ok''"]
    eval_contraction eval_no_contraction
  by (simp add: assess_def)

text \<open>
  Claim C6. On the text \<^verbatim>\<open>Please e-mail support for login help.\<close>, with the analysis
  type \<open>terminology\<close> or \<open>comprehensive\<close>, the issues of type \<open>terminology\<close> are exactly
  two, in this order: one that asks for \<^verbatim>\<open>email\<close> instead of \<^verbatim>\<open>e-mail\<close> and one that asks
  for the sign-in standard instead of \<^verbatim>\<open>login\<close>. The variant \<^verbatim>\<open>log in\<close> does not occur in
  the text.
\<close>

theorem terminology_example:
  "filter (\<lambda>i. issue_type i = ''terminology'')
     (issues (fst (analyze_content w s ''Please e-mail support for login help.'' ''terminology'')))
   = [\<lparr>issue_type = ''terminology'', severity = ''warning'', position = None,
       matched_text = Some ''e-mail'',
       message = ''Use '' @ apostrophe @ ''email'' @ apostrophe @ '' instead of ''
                 @ apostrophe @ ''e-mail'' @ apostrophe,
       principle = None, issue_note = Some ''One word''\<rparr>,
      \<lparr>issue_type = ''terminology'', severity = ''warning'', position = None,
       matched_text = Some ''login'',
       message = ''Use '' @ apostrophe @ ''sign in (verb), sign-in (noun)'' @ apostrophe
                 @ '' instead of '' @ apostrophe @ ''login'' @ apostrophe,
       principle = None, issue_note = Some ''Microsoft standard''\<rparr>]
   \<and> filter (\<lambda>i. issue_type i = ''terminology'')
       (issues (fst (analyze_content w s ''Please e-mail support for login help.'' ''comprehensive'')))
     = filter (\<lambda>i. issue_type i = ''terminology'')
       (issues (fst (analyze_content w s ''Please e-mail support for login help.'' ''terminology'')))
   \<and> \<not> contains (lower ''Please e-mail support for login help.'') ''log in''"
  by (simp only: analyze_issues terminology_only terminology_comprehensive eval_terminology
      eval_no_log_in simp_thms)


section \<open>Claims about the supplemental guidance\<close>











text \<open>With a set that iterates from the last element seen to the first, the two
  topics looked up are not the first two seen.\<close>

lemma last_seen_world_topics:
  "guidance_topics silent_world (detected_issues ''was used, guys'' ''comprehensive'')
     = [''accessibility'', ''grammar'']
   \<and> take 2 (first_seen (map issue_type (detected_issues ''was used, guys'' ''comprehensive'')))
     = [''voice_tone'', ''grammar'']"
  by code_simp






section \<open>Claims about the statistics\<close>

lemma length_split_run:
  "length (split_run cur s) = (if cur = [] then 0 else 1) + starts_after (cur = []) s"
  by (induction s arbitrary: cur) auto

lemma starts_after_index:
  "starts_after b s =
     length (filter (\<lambda>i. \<not> is_space (s ! i) \<and> (if i = 0 then b else is_space (s ! (i - 1))))
               [0 ..< length s])"
proof (induction s arbitrary: b)
  case Nil
  then show ?case by simp
next
  case (Cons c cs)
  have "[0 ..< length (c # cs)] = 0 # map Suc [0 ..< length cs]"
    by (simp add: upt_conv_Cons map_Suc_upt del: upt_Suc)
  then have "length (filter (\<lambda>i. \<not> is_space ((c # cs) ! i)
                 \<and> (if i = 0 then b else is_space ((c # cs) ! (i - 1)))) [0 ..< length (c # cs)])
      = (if \<not> is_space c \<and> b then 1 else 0)
        + length (filter (\<lambda>i. \<not> is_space (cs ! i)
                 \<and> (if i = 0 then is_space c else is_space (cs ! (i - 1)))) [0 ..< length cs])"
    by (simp add: filter_map comp_def nth_Cons' del: upt_Suc cong: if_cong)
  also have "\<dots> = starts_after b (c # cs)"
    by (simp add: Cons.IH [of "is_space c"])
  finally show ?case by simp
qed

lemma length_split: "length (split txt) = word_starts txt"
  unfolding split_def word_starts_def length_split_run starts_after_index
  by (auto intro!: arg_cong [where f = length] filter_cong)

lemma strip_empty: "(strip s = []) = (\<forall>c \<in> set s. is_space c)"
proof
  assume "strip s = []"
  then have all: "\<forall>c \<in> set (dropWhile is_space s). is_space c"
    by (simp add: strip_def dropWhile_eq_Nil_conv)
  have "dropWhile is_space s = []"
  proof (rule ccontr)
    assume ne: "dropWhile is_space s \<noteq> []"
    then have "\<not> is_space (hd (dropWhile is_space s))" by (rule hd_dropWhile)
    moreover from ne have "hd (dropWhile is_space s) \<in> set (dropWhile is_space s)" by simp
    ultimately show False using all by blast
  qed
  then show "\<forall>c \<in> set s. is_space c" by (simp add: dropWhile_eq_Nil_conv)
next
  assume "\<forall>c \<in> set s. is_space c"
  then show "strip s = []" by (auto simp: strip_def dest: set_dropWhileD)
qed

lemma sentences_of_alt:
  "sentences_of txt
     = filter (\<lambda>s. \<exists>c \<in> set s. \<not> is_space c) (re_split False sentence_end_pattern txt)"
  by (simp add: sentences_of_def strip_empty)

lemma eval_hello:
  "basic_statistics ''Hello world. Hi.''
     = \<lparr>word_count = 3, sentence_count = 2, avg_words_per_sentence = 3 / 2\<rparr>"
  by code_simp

lemma eval_hi_stats:
  "basic_statistics ''Hi. '' = \<lparr>word_count = 1, sentence_count = 1, avg_words_per_sentence = 1\<rparr>"
  by code_simp

lemma eval_hi_spans: "nonempty_span_count ''Hi. '' = 2"
  by code_simp

lemma round_half_even_bound: "\<bar>of_int (round_half_even x) - x\<bar> \<le> 1 / 2"
proof -
  define d where "d = x - of_int \<lfloor>x\<rfloor>"
  have d: "0 \<le> d" "d < 1" unfolding d_def by linarith+
  have x: "x = of_int \<lfloor>x\<rfloor> + d" by (simp add: d_def)
  consider "d < 1 / 2" | "1 / 2 < d" | "d = 1 / 2" by linarith
  then show ?thesis
  proof cases
    case 1
    then have "round_half_even x = \<lfloor>x\<rfloor>"
      by (simp add: round_half_even_def Let_def d_def)
    with 1 d show ?thesis by (simp add: d_def)
  next
    case 2
    then have "round_half_even x = \<lfloor>x\<rfloor> + 1"
      by (simp add: round_half_even_def Let_def d_def)
    with 2 d show ?thesis by (simp add: d_def abs_if)
  next
    case 3
    then have "round_half_even x = \<lfloor>x\<rfloor> \<or> round_half_even x = \<lfloor>x\<rfloor> + 1"
      by (simp add: round_half_even_def Let_def d_def)
    with 3 show ?thesis by (auto simp: d_def abs_if)
  qed
qed

lemma round1_bound: "\<bar>round1 x - x\<bar> \<le> 1 / 20"
proof -
  have "\<bar>round1 x - x\<bar> = \<bar>of_int (round_half_even (x * 10)) - x * 10\<bar> / 10"
    by (simp add: round1_def abs_if field_simps)
  also have "\<dots> \<le> (1 / 2) / 10"
    by (rule divide_right_mono [OF round_half_even_bound]) simp
  finally show ?thesis by simp
qed

lemma pow2_powi: "pow2 e = 2 powi e"
  by (simp add: pow2_def power_int_def power_one_over [symmetric] inverse_eq_divide)

lemma bit_length_bounds:
  "0 < n \<Longrightarrow> 2 ^ (bit_length n - 1) \<le> n \<and> n < 2 ^ bit_length n"
proof (induction n rule: bit_length.induct)
  case (1 n)
  have half: "2 * (n div 2) \<le> n" "n < 2 * (n div 2) + 2" by linarith+
  show ?case
  proof (cases "n div 2 = 0")
    case True
    with half 1(2) have "n = Suc 0" by linarith
    then show ?thesis by (simp add: bit_length.simps [of "Suc 0"] bit_length.simps [of 0])
  next
    case False
    with 1 have ih: "2 ^ (bit_length (n div 2) - 1) \<le> n div 2" "n div 2 < 2 ^ bit_length (n div 2)"
      by auto
    from False obtain k where k: "bit_length (n div 2) = Suc k"
      by (simp add: bit_length.simps [of "n div 2"])
    have bl: "bit_length n = Suc (Suc k)"
      using 1(2) k by (simp add: bit_length.simps [of n])
    from ih have "(2::nat) ^ k \<le> n div 2" "n div 2 < 2 * 2 ^ k"
      by (simp_all add: k)
    with half have "2 * (2::nat) ^ k \<le> n" "n < 2 * (2 * 2 ^ k)" by linarith+
    then show ?thesis by (simp add: bl)
  qed
qed


lemma bit_length_powi:
  assumes "0 < n"
  shows "2 powi (int (bit_length n) - 1) \<le> (of_nat n :: rat)"
    and "(of_nat n :: rat) < 2 powi int (bit_length n)"
proof -
  from bit_length_bounds [OF assms]
  have lo: "2 ^ (bit_length n - 1) \<le> n" and hi: "n < 2 ^ bit_length n" by simp_all
  from hi assms have pos: "0 < bit_length n"
    by (cases "bit_length n") simp_all
  then have "int (bit_length n) - 1 = int (bit_length n - 1)" by simp
  moreover have "(2::rat) ^ (bit_length n - 1) \<le> of_nat n"
    using of_nat_mono [OF lo, where ?'a = rat] by simp
  ultimately show "2 powi (int (bit_length n) - 1) \<le> (of_nat n :: rat)"
    by (simp only: power_int_of_nat)
  show "(of_nat n :: rat) < 2 powi int (bit_length n)"
    using of_nat_less_iff [of n "2 ^ bit_length n", where ?'a = rat] hi by simp
qed

lemma binade_bounds:
  assumes "0 < a" and "0 < b"
  shows "pow2 (binade a b) \<le> of_nat a / of_nat b"
    and "of_nat a / of_nat b < pow2 (binade a b + 1)"
proof -
  define A B :: rat where "A = of_nat a" and "B = of_nat b"
  define la lb where "la = int (bit_length a)" and "lb = int (bit_length b)"
  have pos: "0 < A" "0 < B" using assms by (simp_all add: A_def B_def)
  have a1: "2 powi (la - 1) \<le> A" and a2: "A < 2 powi la"
    using bit_length_powi [OF assms(1)] by (simp_all add: A_def la_def)
  have b1: "2 powi (lb - 1) \<le> B" and b2: "B < 2 powi lb"
    using bit_length_powi [OF assms(2)] by (simp_all add: B_def lb_def)
  have p: "\<And>e. (0::rat) < 2 powi e" by simp
  have e0: "binade a b = (if B * 2 powi (la - lb) \<le> A then la - lb else la - lb - 1)"
    by (simp add: binade_def Let_def pow2_powi A_def B_def la_def lb_def)
  have both: "2 powi (binade a b) \<le> A / B \<and> A / B < 2 powi (binade a b + 1)"
  proof (cases "B * 2 powi (la - lb) \<le> A")
    case True
    then have lo: "2 powi (la - lb) \<le> A / B"
      using pos by (simp add: pos_le_divide_eq mult.commute)
    have "2 powi (la - lb + 1) * 2 powi (lb - 1) = (2::rat) powi la"
      by (simp add: power_int_add [symmetric])
    moreover have "2 powi (la - lb + 1) * 2 powi (lb - 1) \<le> 2 powi (la - lb + 1) * B"
      using b1 by (intro mult_left_mono) simp_all
    ultimately have "A < 2 powi (la - lb + 1) * B" using a2 by linarith
    then have "A / B < 2 powi (la - lb + 1)"
      using pos by (simp add: pos_divide_less_eq)
    with lo True show ?thesis by (simp add: e0)
  next
    case False
    then have hi: "A / B < 2 powi (la - lb)"
      using pos by (simp add: pos_divide_less_eq mult.commute)
    have "2 powi (la - lb - 1) * 2 powi lb = (2::rat) powi (la - 1)"
      by (simp add: power_int_add [symmetric])
    moreover have "2 powi (la - lb - 1) * B \<le> 2 powi (la - lb - 1) * 2 powi lb"
      using b2 by (intro mult_left_mono) simp_all
    ultimately have "2 powi (la - lb - 1) * B \<le> A" using a1 by linarith
    then have "2 powi (la - lb - 1) \<le> A / B"
      using pos by (simp add: pos_le_divide_eq)
    with hi False show ?thesis by (simp add: e0)
  qed
  then show "pow2 (binade a b) \<le> of_nat a / of_nat b"
    and "of_nat a / of_nat b < pow2 (binade a b + 1)"
    by (simp_all add: pow2_powi A_def B_def)
qed

lemma truediv_bound:
  assumes "0 < b"
  shows "\<bar>truediv a b - of_nat a / of_nat b\<bar> \<le> (of_nat a / of_nat b) / 2 ^ 53"
proof (cases "a = 0")
  case True
  then show ?thesis by (simp add: truediv_def)
next
  case False
  then have a: "0 < a" by simp
  define q :: rat where "q = of_nat a / of_nat b"
  define e where "e = binade a b"
  define P :: rat where "P = 2 powi (52 - e)"
  have P: "0 < P" by (simp add: P_def)
  have inv: "2 powi (e - 52) = 1 / P"
    using power_int_minus_divide [of "2::rat" "52 - e"] by (simp add: P_def)
  have "truediv a b = of_int (round_half_even (q * pow2 (52 - e))) * pow2 (e - 52)"
    using False by (simp add: truediv_def Let_def q_def e_def)
  then have t: "truediv a b = of_int (round_half_even (q * P)) / P"
    unfolding pow2_powi inv P_def [symmetric] by simp
  have "\<bar>truediv a b - q\<bar> = \<bar>of_int (round_half_even (q * P)) - q * P\<bar> / P"
    using P by (simp add: t abs_if field_simps)
  also have "\<dots> \<le> (1 / 2) / P"
    by (rule divide_right_mono [OF round_half_even_bound]) (use P in simp)
  also have "\<dots> = 2 powi e / 2 ^ 53"
  proof -
    have "(2::rat) powi e = 2 powi (e - 52) * 2 powi 52"
      using power_int_add [of "2::rat" "e - 52" 52] by simp
    then have "(2::rat) powi e = (1 / P) * 2 ^ 52"
      by (simp add: inv)
    then show ?thesis by simp
  qed
  also have "\<dots> \<le> q / 2 ^ 53"
    using binade_bounds(1) [OF a assms]
    by (intro divide_right_mono) (simp_all add: pow2_powi q_def e_def)
  finally show ?thesis by (simp add: q_def)
qed

lemma average_bound:
  assumes "0 < b"
  shows "\<bar>round1 (truediv a b) - of_nat a / of_nat b\<bar>
           \<le> 1 / 20 + (of_nat a / of_nat b) / 2 ^ 53"
  using round1_bound [of "truediv a b"] truediv_bound [OF assms, of a] by linarith


lemma round1_tenth: "\<exists>k :: int. round1 x = of_int k / 10"
  by (auto simp: round1_def)


text \<open>
  Claim C5, as stated, fails: on the text \<^verbatim>\<open>Hi.\<close> followed by a space, splitting at
  the runs of sentence marks leaves two non-empty spans, \<^verbatim>\<open>Hi\<close> and a space, but the
  sentence count is 1: line 137 keeps a span only if something is left of it after
  stripping white space.
\<close>

theorem sentence_count_counterexample:
  "sentence_count (stats (fst (analyze_content demo_world demo_state ''Hi. '' ''comprehensive''))) = 1
   \<and> nonempty_span_count ''Hi. '' = 2
   \<and> re_split False sentence_end_pattern ''Hi. '' = [''Hi'', '' '']"
proof -
  have "re_split False sentence_end_pattern ''Hi. '' = [''Hi'', '' '']" by code_simp
  then show ?thesis by (simp add: eval_hi_stats eval_hi_spans)
qed

text \<open>
  Claim C5, amended. For every text, \<^verbatim>\<open>word_count\<close> is the number of tokens of the
  white-space split, which is the number of positions where a token begins;
  \<^verbatim>\<open>sentence_count\<close> is the number of spans, between the runs of \<^verbatim>\<open>.\<close>, \<^verbatim>\<open>!\<close> and
  \<^verbatim>\<open>?\<close>, that contain a character other than white space;
  \<^verbatim>\<open>avg_words_per_sentence\<close> is \<^verbatim>\<open>round(word_count / max(1, sentence_count), 1)\<close> in
  double arithmetic, a multiple of one tenth that differs from the exact quotient \<open>q\<close>
  by at most \<open>1 / 20 + q / 2 ^ 53\<close>. The text \<^verbatim>\<open>Hello world. Hi.\<close> has 3 words, 2
  sentences and the average 1.5.
\<close>

theorem statistics_as_computed:
  "word_count (stats (fst (analyze_content w s txt atype))) = length (split txt)
   \<and> word_count (stats (fst (analyze_content w s txt atype))) = word_starts txt
   \<and> sentence_count (stats (fst (analyze_content w s txt atype)))
       = length (filter (\<lambda>sp. \<exists>c \<in> set sp. \<not> is_space c)
           (re_split False sentence_end_pattern txt))
   \<and> avg_words_per_sentence (stats (fst (analyze_content w s txt atype)))
       = round1 (truediv (word_count (stats (fst (analyze_content w s txt atype))))
           (max 1 (sentence_count (stats (fst (analyze_content w s txt atype))))))
   \<and> (\<exists>k :: int. avg_words_per_sentence (stats (fst (analyze_content w s txt atype)))
         = of_int k / 10)
   \<and> \<bar>avg_words_per_sentence (stats (fst (analyze_content w s txt atype)))
        - of_nat (word_count (stats (fst (analyze_content w s txt atype))))
          / of_nat (max 1 (sentence_count (stats (fst (analyze_content w s txt atype)))))\<bar>
       \<le> 1 / 20
          + of_nat (word_count (stats (fst (analyze_content w s txt atype))))
            / of_nat (max 1 (sentence_count (stats (fst (analyze_content w s txt atype)))))
            / 2 ^ 53
   \<and> stats (fst (analyze_content w s ''Hello world. Hi.'' atype))
       = \<lparr>word_count = 3, sentence_count = 2, avg_words_per_sentence = 3 / 2\<rparr>"
proof -
  have pos: "0 < max 1 (sentence_count (stats (fst (analyze_content w s txt atype))))"
    by simp
  have avg: "avg_words_per_sentence (stats (fst (analyze_content w s txt atype)))
       = round1 (truediv (word_count (stats (fst (analyze_content w s txt atype))))
           (max 1 (sentence_count (stats (fst (analyze_content w s txt atype))))))"
    by (simp add: basic_statistics_def Let_def)
  have tenth: "\<exists>k :: int. avg_words_per_sentence (stats (fst (analyze_content w s txt atype)))
         = of_int k / 10"
    unfolding avg by (rule round1_tenth)
  have near: "\<bar>avg_words_per_sentence (stats (fst (analyze_content w s txt atype)))
        - of_nat (word_count (stats (fst (analyze_content w s txt atype))))
          / of_nat (max 1 (sentence_count (stats (fst (analyze_content w s txt atype)))))\<bar>
       \<le> 1 / 20
          + of_nat (word_count (stats (fst (analyze_content w s txt atype))))
            / of_nat (max 1 (sentence_count (stats (fst (analyze_content w s txt atype)))))
            / 2 ^ 53"
    unfolding avg by (rule average_bound [OF pos])
  have "stats (fst (analyze_content w s ''Hello world. Hi.'' atype))
       = \<lparr>word_count = 3, sentence_count = 2, avg_words_per_sentence = 3 / 2\<rparr>"
    by (simp only: analyze_stats eval_hello)
  moreover have "sentence_count (stats (fst (analyze_content w s txt atype)))
       = length (filter (\<lambda>sp. \<exists>c \<in> set sp. \<not> is_space c)
           (re_split False sentence_end_pattern txt))"
    by (simp add: basic_statistics_def Let_def sentences_of_alt)
  moreover have "word_count (stats (fst (analyze_content w s txt atype))) = length (split txt)"
    by (simp add: basic_statistics_def Let_def)
  moreover have "avg_words_per_sentence (stats (fst (analyze_content w s txt atype)))
       = round1 (truediv (word_count (stats (fst (analyze_content w s txt atype))))
           (max 1 (sentence_count (stats (fst (analyze_content w s txt atype))))))"
    by (simp add: basic_statistics_def Let_def)
  ultimately show ?thesis
    using tenth near by (simp only: length_split simp_thms)
qed

theorem statistics_as_computed_witness:
  "stats (fst (analyze_content demo_world demo_state ''Hi. '' ''grammar''))
     = \<lparr>word_count = 1, sentence_count = 1, avg_words_per_sentence = 1\<rparr>
   \<and> word_starts ''Hi. '' = 1
   \<and> length (filter (\<lambda>sp. \<exists>c \<in> set sp. \<not> is_space c)
           (re_split False sentence_end_pattern ''Hi. '')) = 1
   \<and> stats (fst (analyze_content demo_world demo_state ''Hello world. Hi.'' ''grammar''))
       = \<lparr>word_count = 3, sentence_count = 2, avg_words_per_sentence = 3 / 2\<rparr>"
  using statistics_as_computed [of demo_world demo_state "''Hi. ''" "''grammar''"]
  by (simp add: eval_hi_stats)


end
